theory Spec2Isabelle
  imports Complex_Main "HOL-Library.Word"
begin

section \<open>The flash session store of \<^verbatim>\<open>utils/flash\<close>\<close>

text \<open>
  The repository holds the session store twice: \<^verbatim>\<open>src/utils/flash.ts\<close> and an
  untyped copy of the same module.  They agree statement by statement except for
  the \<^verbatim>\<open>Error\<close> table, the initial value of \<^verbatim>\<open>manifest\<close> and the
  \<^verbatim>\<open>if (!imageWorker) throw ...\<close> guards, so one embedding serves both, with the
  file as a parameter wherever they differ.
\<close>

datatype source = FlashTS | FlashJS

subsection \<open>Values\<close>

text \<open>
  The JavaScript values that are thrown or stored in the \<^verbatim>\<open>error\<close> field: a number,
  a string, \<^verbatim>\<open>undefined\<close>, or an object, of which only the \<^verbatim>\<open>code\<close> property is
  ever read (\<open>JObj JUndefined\<close> is an object without \<^verbatim>\<open>code\<close>).
\<close>

datatype jsval = JUndefined | JNum int | JStr string | JObj jsval

fun truthy :: "jsval \<Rightarrow> bool" where
  "truthy JUndefined = False"
| "truthy (JNum n) = (n \<noteq> 0)"
| "truthy (JStr s) = (s \<noteq> [])"
| "truthy (JObj c) = True"

text \<open>A \<^verbatim>\<open>TypeError\<close> raised by the language itself; it carries no \<^verbatim>\<open>code\<close>.\<close>

definition TypeError :: jsval where
  "TypeError = JObj JUndefined"

datatype Step = INITIALIZING | READY | CONNECTING | DOWNLOADING | UNPACKING | FLASHING
  | ERASING | DONE

fun Step_value :: "Step \<Rightarrow> int" where
  "Step_value INITIALIZING = 0"
| "Step_value READY = 1"
| "Step_value CONNECTING = 2"
| "Step_value DOWNLOADING = 3"
| "Step_value UNPACKING = 4"
| "Step_value FLASHING = 6"
| "Step_value ERASING = 7"
| "Step_value DONE = 8"

datatype ErrorKey = UNKNOWN | NONE | UNRECOGNIZED_DEVICE | LOST_CONNECTION | DOWNLOAD_FAILED
  | UNPACK_FAILED | CHECKSUM_MISMATCH | FLASH_FAILED | ERASE_FAILED | REQUIREMENTS_NOT_MET

text \<open>
  The property read \<^verbatim>\<open>Error.KEY\<close>.  The table of \<^verbatim>\<open>flash.ts\<close> has no key
  \<^verbatim>\<open>UNPACK_FAILED\<close>, so the read yields \<^verbatim>\<open>undefined\<close> there.
\<close>

fun Error :: "source \<Rightarrow> ErrorKey \<Rightarrow> jsval" where
  "Error FlashTS UNKNOWN = JNum (-1)"
| "Error FlashTS NONE = JNum 0"
| "Error FlashTS UNRECOGNIZED_DEVICE = JNum 1"
| "Error FlashTS LOST_CONNECTION = JNum 2"
| "Error FlashTS DOWNLOAD_FAILED = JNum 3"
| "Error FlashTS CHECKSUM_MISMATCH = JNum 4"
| "Error FlashTS FLASH_FAILED = JNum 5"
| "Error FlashTS ERASE_FAILED = JNum 6"
| "Error FlashTS REQUIREMENTS_NOT_MET = JNum 7"
| "Error FlashTS UNPACK_FAILED = JUndefined"
| "Error FlashJS UNKNOWN = JNum (-1)"
| "Error FlashJS NONE = JNum 0"
| "Error FlashJS UNRECOGNIZED_DEVICE = JNum 1"
| "Error FlashJS LOST_CONNECTION = JNum 2"
| "Error FlashJS DOWNLOAD_FAILED = JNum 3"
| "Error FlashJS UNPACK_FAILED = JNum 4"
| "Error FlashJS CHECKSUM_MISMATCH = JNum 5"
| "Error FlashJS FLASH_FAILED = JNum 6"
| "Error FlashJS ERASE_FAILED = JNum 7"
| "Error FlashJS REQUIREMENTS_NOT_MET = JNum 8"

definition ErrorKeys :: "ErrorKey list" where
  "ErrorKeys = [UNKNOWN, NONE, UNRECOGNIZED_DEVICE, LOST_CONNECTION, DOWNLOAD_FAILED,
     UNPACK_FAILED, CHECKSUM_MISMATCH, FLASH_FAILED, ERASE_FAILED, REQUIREMENTS_NOT_MET]"

text \<open>The values of the table: what a member of the error taxonomy is.\<close>

definition ErrorValues :: "source \<Rightarrow> jsval list" where
  "ErrorValues src = filter (\<lambda>v. v \<noteq> JUndefined) (map (Error src) ErrorKeys)"

subsection \<open>Device recognition\<close>

definition expectedPartitions :: "string list" where
  "expectedPartitions =
    [''ALIGN_TO_128K_1'', ''ALIGN_TO_128K_2'', ''ImageFv'', ''abl'', ''aop'', ''apdp'',
     ''bluetooth'', ''boot'', ''cache'', ''cdt'', ''cmnlib'', ''cmnlib64'', ''ddr'', ''devcfg'',
     ''devinfo'', ''dip'', ''dsp'', ''fdemeta'', ''frp'', ''fsc'', ''fsg'', ''hyp'', ''keymaster'',
     ''keystore'', ''limits'', ''logdump'', ''logfs'', ''mdtp'', ''mdtpsecapp'', ''misc'',
     ''modem'', ''modemst1'', ''modemst2'', ''msadp'', ''persist'', ''qupfw'', ''rawdump'', ''sec'',
     ''splash'', ''spunvm'', ''ssd'', ''sti'', ''storsec'', ''system'', ''systemrw'', ''toolsfv'',
     ''tz'', ''userdata'', ''vm-linux'', ''vm-system'', ''xbl'', ''xbl_config'']"

definition isRecognizedDevice :: "int \<Rightarrow> string list \<Rightarrow> bool" where
  "isRecognizedDevice slotCount partitions =
     (if slotCount \<noteq> 2 then False
      else if \<not> list_all (\<lambda>partition. partition \<in> set expectedPartitions) partitions
        then False
      else True)"

subsection \<open>The published state and its collaborators\<close>

record ManifestImage =
  name :: string

type_synonym blob = "8 word list"

text \<open>
  A stored callback, described by what a call of it does:
  \<open>ReloadPage\<close> is \<^verbatim>\<open>() => window.location.reload()\<close>, and \<open>Returns f\<close> is
  \<^verbatim>\<open>() => f\<close>, which has no effect and hands back the function \<open>f\<close>.
\<close>

datatype callback = ReloadPage | Returns callback

fun performsReload :: "callback \<Rightarrow> bool" where
  "performsReload ReloadPage = True"
| "performsReload (Returns f) = False"

text \<open>
  Everything the store does that an observer or a collaborator can see, in the order
  it happens: the \<^verbatim>\<open>set\<close> calls on the eight writables and the calls to the
  driver, the worker and the manifest loader.
\<close>

datatype event =
    SetStep Step
  | SetMessage string
  | SetProgress rat
  | SetError jsval
  | SetConnected bool
  | SetSerial string
  | SetOnContinue "callback option"
  | SetOnRetry "callback option"
  | WorkerInit
  | LoadManifest
  | DownloadImage ManifestImage
  | UnpackImage ManifestImage
  | GetImage ManifestImage
  | WaitForConnect
  | GetDevicePartitionsInfo
  | GetActiveSlot
  | SetActiveSlot string
  | Erase string
  | FlashBlob string blob
  | Reset

text \<open>
  The collaborators are not part of the module; each is an arbitrary function of the
  history so far (the trace up to and including the call) and of the call's arguments.
  A call that fails rejects with a value, and that may be any of the values above,
  the number 0 and \<^verbatim>\<open>undefined\<close> among them.
  \<open>requirements\<close> is the outcome of the three \<^verbatim>\<open>typeof\<close> tests of
  \<^verbatim>\<open>initialize\<close>; \<open>saharaSerial\<close> is \<^verbatim>\<open>qdl.sahara.serial\<close>, the empty string
  standing for every falsy value; \<open>loadManifest\<close> is \<^verbatim>\<open>download\<close>, \<^verbatim>\<open>blob.text\<close> and
  \<^verbatim>\<open>createManifest\<close> together; \<open>getImage\<close> is \<^verbatim>\<open>getImage\<close> followed by
  \<^verbatim>\<open>getFile\<close>.
\<close>

record env =
  requirements :: bool
  workerInit :: "event list \<Rightarrow> jsval option"
  loadManifest :: "event list \<Rightarrow> jsval + ManifestImage list"
  downloadImage :: "event list \<Rightarrow> ManifestImage \<Rightarrow> jsval option"
  unpackImage :: "event list \<Rightarrow> ManifestImage \<Rightarrow> jsval option"
  getImage :: "event list \<Rightarrow> ManifestImage \<Rightarrow> jsval + blob"
  waitForConnect :: "event list \<Rightarrow> jsval option"
  getDevicePartitionsInfo :: "event list \<Rightarrow> jsval + (int \<times> string list)"
  saharaSerial :: "event list \<Rightarrow> string"
  getActiveSlot :: "event list \<Rightarrow> jsval + string"
  setActiveSlot :: "event list \<Rightarrow> string \<Rightarrow> jsval option"
  erase :: "event list \<Rightarrow> string \<Rightarrow> jsval option"
  flashBlob :: "event list \<Rightarrow> string \<Rightarrow> blob \<Rightarrow> jsval option"
  reset :: "event list \<Rightarrow> jsval option"
  itemProgress :: "event list \<Rightarrow> rat list"

text \<open>
  The closure of \<^verbatim>\<open>createQdlStore\<close>: the eight writables, the two captured
  variables (\<open>manifest = None\<close> is \<^verbatim>\<open>null\<close>, \<open>imageWorker = False\<close> is \<^verbatim>\<open>null\<close>)
  and the trace.
\<close>

record store =
  step :: Step
  message :: string
  progress :: rat
  error :: jsval
  connected :: bool
  serial :: "string option"
  onContinue :: "callback option"
  onRetry :: "callback option"
  manifest :: "ManifestImage list option"
  imageWorker :: bool
  trace :: "event list"

definition createQdlStore :: "source \<Rightarrow> store" where
  "createQdlStore src =
     \<lparr>step = INITIALIZING, message = [], progress = 0, error = Error src NONE,
      connected = False, serial = None, onContinue = None, onRetry = None,
      manifest = (case src of FlashTS \<Rightarrow> Some [] | FlashJS \<Rightarrow> None),
      imageWorker = False, trace = []\<rparr>"

definition emit :: "event \<Rightarrow> store \<Rightarrow> store" where
  "emit e s = s\<lparr>trace := trace s @ [e]\<rparr>"

definition step_set :: "Step \<Rightarrow> store \<Rightarrow> store" where
  "step_set v s = emit (SetStep v) (s\<lparr>step := v\<rparr>)"

definition message_set :: "string \<Rightarrow> store \<Rightarrow> store" where
  "message_set v s = emit (SetMessage v) (s\<lparr>message := v\<rparr>)"

definition progress_set :: "rat \<Rightarrow> store \<Rightarrow> store" where
  "progress_set v s = emit (SetProgress v) (s\<lparr>progress := v\<rparr>)"

definition error_set :: "jsval \<Rightarrow> store \<Rightarrow> store" where
  "error_set v s = emit (SetError v) (s\<lparr>error := v\<rparr>)"

definition connected_set :: "bool \<Rightarrow> store \<Rightarrow> store" where
  "connected_set v s = emit (SetConnected v) (s\<lparr>connected := v\<rparr>)"

definition serial_set :: "string \<Rightarrow> store \<Rightarrow> store" where
  "serial_set v s = emit (SetSerial v) (s\<lparr>serial := Some v\<rparr>)"

definition onContinue_set :: "callback option \<Rightarrow> store \<Rightarrow> store" where
  "onContinue_set v s = emit (SetOnContinue v) (s\<lparr>onContinue := v\<rparr>)"

definition onRetry_set :: "callback option \<Rightarrow> store \<Rightarrow> store" where
  "onRetry_set v s = emit (SetOnRetry v) (s\<lparr>onRetry := v\<rparr>)"

definition setMessage :: "string \<Rightarrow> store \<Rightarrow> store" where
  "setMessage msg s = message_set msg s"

text \<open>
  Modelled from the spec: \<^verbatim>\<open>withProgress\<close> of \<^verbatim>\<open>utils/progress\<close>, which is not
  among the sources.  It hands out the manifest's images one at a time, in order, each
  with a per-item callback, and turns what the callbacks report into values of the one
  \<^verbatim>\<open>progress\<close> writable.  \<open>withProgress_publish\<close> is what reaches
  \<^verbatim>\<open>progress.set\<close> while one item is processed; the values themselves are the
  environment's.
\<close>

definition withProgress_publish :: "env \<Rightarrow> store \<Rightarrow> store" where
  "withProgress_publish E s = fold progress_set (itemProgress E (trace s)) s"

subsection \<open>The phases\<close>

text \<open>
  A phase returns the value it throws, if any, together with the store as it
  stands at that moment.
\<close>

type_synonym outcome = "jsval option \<times> store"

fun downloadLoop :: "env \<Rightarrow> ManifestImage list \<Rightarrow> store \<Rightarrow> outcome" where
  "downloadLoop E [] s = (None, s)"
| "downloadLoop E (img # rest) s =
     (let s1 = setMessage (''Downloading '' @ name img) s in
      if \<not> imageWorker s1 then (Some TypeError, s1)
      else
        let s2 = emit (DownloadImage img) s1;
            s3 = withProgress_publish E s2
        in case downloadImage E (trace s2) img of
             Some r \<Rightarrow> (Some r, s3)
           | None \<Rightarrow> downloadLoop E rest s3)"

text \<open>
  The \<^verbatim>\<open>for await\<close> loop over \<^verbatim>\<open>withProgress(manifest, progress.set)\<close>:
  iterating \<^verbatim>\<open>null\<close> throws.
\<close>

definition downloadEach :: "env \<Rightarrow> store \<Rightarrow> outcome" where
  "downloadEach E s =
     (case manifest s of
        None \<Rightarrow> (Some TypeError, s)
      | Some images \<Rightarrow> downloadLoop E images s)"

text \<open>
  In \<^verbatim>\<open>flash.ts\<close> each of the first three phases begins, outside its \<^verbatim>\<open>try\<close>,
  with \<^verbatim>\<open>if (!imageWorker) throw new Error(...)\<close>.  Inside the module \<^verbatim>\<open>Error\<close>
  is the table above and no constructor, so the \<^verbatim>\<open>new\<close> itself throws; either
  way the value thrown is an object without \<^verbatim>\<open>code\<close>.  The untyped copy has no
  such guard: there a \<^verbatim>\<open>null\<close> worker fails inside the \<^verbatim>\<open>try\<close>, at the first
  call on it.
\<close>

definition downloadImages :: "env \<Rightarrow> source \<Rightarrow> store \<Rightarrow> outcome" where
  "downloadImages E src s =
     (if src = FlashTS \<and> \<not> imageWorker s then (Some TypeError, s)
      else
        case downloadEach E (progress_set 0 s) of
          (None, s1) \<Rightarrow> (None, step_set UNPACKING s1)
        | (Some err, s1) \<Rightarrow> (Some (Error src DOWNLOAD_FAILED), s1))"

fun unpackLoop :: "env \<Rightarrow> ManifestImage list \<Rightarrow> store \<Rightarrow> outcome" where
  "unpackLoop E [] s = (None, s)"
| "unpackLoop E (img # rest) s =
     (let s1 = setMessage (''Unpacking '' @ name img) s in
      if \<not> imageWorker s1 then (Some TypeError, s1)
      else
        let s2 = emit (UnpackImage img) s1;
            s3 = withProgress_publish E s2
        in case unpackImage E (trace s2) img of
             Some r \<Rightarrow> (Some r, s3)
           | None \<Rightarrow> unpackLoop E rest s3)"

text \<open>
  \<^verbatim>\<open>err.startsWith(prefix)\<close>: only a string has the method; on any other value the
  call itself throws.
\<close>

fun startsWith :: "jsval \<Rightarrow> string \<Rightarrow> jsval + bool" where
  "startsWith (JStr m) p = Inr (take (length p) m = p)"
| "startsWith v p = Inl TypeError"

definition unpackEach :: "env \<Rightarrow> store \<Rightarrow> outcome" where
  "unpackEach E s =
     (case manifest s of
        None \<Rightarrow> (Some TypeError, s)
      | Some images \<Rightarrow> unpackLoop E images s)"

definition unpackImages :: "env \<Rightarrow> source \<Rightarrow> store \<Rightarrow> outcome" where
  "unpackImages E src s =
     (if src = FlashTS \<and> \<not> imageWorker s then (Some TypeError, s)
      else
        case unpackEach E (progress_set 0 s) of
          (None, s1) \<Rightarrow> (None, step_set FLASHING s1)
        | (Some err, s1) \<Rightarrow>
            (case startsWith err ''Checksum mismatch'' of
               Inl e \<Rightarrow> (Some e, s1)
             | Inr b \<Rightarrow>
                 (Some (if b then Error src CHECKSUM_MISMATCH else Error src UNPACK_FAILED), s1)))"

fun flashLoop :: "env \<Rightarrow> string \<Rightarrow> ManifestImage list \<Rightarrow> store \<Rightarrow> outcome" where
  "flashLoop E otherSlot [] s = (None, s)"
| "flashLoop E otherSlot (img # rest) s =
     (if \<not> imageWorker s then (Some TypeError, s)
      else
        let s1 = emit (GetImage img) s in
        case getImage E (trace s1) img of
          Inl r \<Rightarrow> (Some r, s1)
        | Inr blob \<Rightarrow>
            let s2 = setMessage (''Flashing '' @ name img) s1;
                partitionName = name img @ ''_'' @ otherSlot;
                s3 = emit (FlashBlob partitionName blob) s2;
                s4 = withProgress_publish E s3
            in case flashBlob E (trace s3) partitionName blob of
                 Some r \<Rightarrow> (Some r, s4)
               | None \<Rightarrow> flashLoop E otherSlot rest s4)"

definition flashEach :: "env \<Rightarrow> string \<Rightarrow> store \<Rightarrow> outcome" where
  "flashEach E otherSlot s =
     (case manifest s of
        None \<Rightarrow> (Some TypeError, s)
      | Some images \<Rightarrow> flashLoop E otherSlot images s)"

text \<open>\<^verbatim>\<open>const otherSlot = currentSlot === 'a' ? 'b' : 'a'\<close>\<close>

definition otherSlot :: "string \<Rightarrow> string" where
  "otherSlot currentSlot = (if currentSlot = ''a'' then ''b'' else ''a'')"

text \<open>
  The \<^verbatim>\<open>try\<close> block of \<^verbatim>\<open>flashDevice\<close>, in two parts: \<open>flashOther\<close> is
  what follows the check of the slot the driver reported.
\<close>

definition flashOther :: "env \<Rightarrow> string \<Rightarrow> store \<Rightarrow> outcome" where
  "flashOther E currentSlot s =
     (let other = otherSlot currentSlot;
          s1 = emit (Erase (''xbl'' @ ''_'' @ currentSlot)) s
      in case erase E (trace s1) (''xbl'' @ ''_'' @ currentSlot) of
           Some r \<Rightarrow> (Some r, s1)
         | None \<Rightarrow>
             (case flashEach E other s1 of
                (Some err, s2) \<Rightarrow> (Some err, s2)
              | (None, s2) \<Rightarrow>
                  let s3 = setMessage (''Changing slot to '' @ other) s2;
                      s4 = emit (SetActiveSlot other) s3
                  in case setActiveSlot E (trace s4) other of
                       Some r \<Rightarrow> (Some r, s4)
                     | None \<Rightarrow> (None, s4)))"

definition flashBody :: "env \<Rightarrow> store \<Rightarrow> outcome" where
  "flashBody E s =
     (let s1 = emit GetActiveSlot s in
      case getActiveSlot E (trace s1) of
        Inl r \<Rightarrow> (Some r, s1)
      | Inr currentSlot \<Rightarrow>
          if currentSlot \<notin> set [''a'', ''b'']
          then (Some (JStr (''Unknown current slot '' @ currentSlot)), s1)
          else flashOther E currentSlot s1)"

definition flashDevice :: "env \<Rightarrow> source \<Rightarrow> store \<Rightarrow> outcome" where
  "flashDevice E src s =
     (if src = FlashTS \<and> \<not> imageWorker s then (Some TypeError, s)
      else
        case flashBody E (progress_set 0 s) of
          (None, s1) \<Rightarrow> (None, s1)
        | (Some err, s1) \<Rightarrow> (Some (Error src FLASH_FAILED), s1))"

text \<open>
  Modelled from the spec: \<^verbatim>\<open>concatUint8Array\<close> of \<^verbatim>\<open>QDL/utils\<close>, which is not
  among the sources, joins the arrays it is given end to end.
\<close>

definition concatUint8Array :: "blob list \<Rightarrow> blob" where
  "concatUint8Array arrays = concat arrays"

text \<open>\<^verbatim>\<open>new TextEncoder().encode(s)\<close> on an ASCII string: one byte for each character.\<close>

definition encode :: "string \<Rightarrow> blob" where
  "encode s = map (\<lambda>c. of_char c) s"

definition erasePayload :: blob where
  "erasePayload =
     (let wData = encode ''COMMA_RESET''
      in concatUint8Array [wData, replicate (28 - length wData) 0])"

text \<open>The \<^verbatim>\<open>try\<close> block of \<^verbatim>\<open>eraseDevice\<close>.\<close>

definition eraseBody :: "env \<Rightarrow> store \<Rightarrow> outcome" where
  "eraseBody E s =
     (let s1 = setMessage ''Erasing userdata'' s;
          wData = erasePayload;
          s2 = emit (FlashBlob ''userdata'' wData) s1
      in case flashBlob E (trace s2) ''userdata'' wData of
           Some r \<Rightarrow> (Some r, s2)
         | None \<Rightarrow>
             let s3 = progress_set (9 / 10) s2;
                 s4 = setMessage ''Rebooting'' s3;
                 s5 = emit Reset s4
             in case reset E (trace s5) of
                  Some r \<Rightarrow> (Some r, s5)
                | None \<Rightarrow> (None, connected_set False (progress_set 1 s5)))"

definition eraseDevice :: "env \<Rightarrow> source \<Rightarrow> store \<Rightarrow> outcome" where
  "eraseDevice E src s =
     (case eraseBody E (progress_set 0 s) of
        (None, s1) \<Rightarrow> (None, s1)
      | (Some err, s1) \<Rightarrow> (Some (Error src ERASE_FAILED), s1))"

subsection \<open>Error handling and the two operations of the store\<close>

text \<open>
  \<^verbatim>\<open>err.code\<close>: reading a property of \<^verbatim>\<open>undefined\<close> throws; a number or a string
  has no such property.
\<close>

fun code_of :: "jsval \<Rightarrow> jsval + jsval" where
  "code_of JUndefined = Inl TypeError"
| "code_of (JObj c) = Inr c"
| "code_of v = Inr JUndefined"

definition handleError :: "jsval \<Rightarrow> store \<Rightarrow> outcome" where
  "handleError err s =
     (case code_of err of
        Inl e \<Rightarrow> (Some e, s)
      | Inr c \<Rightarrow>
          let errorCode = (if truthy c then c else err) in
          (None, onRetry_set (Some (Returns ReloadPage))
                   (onContinue_set None (progress_set (- 1) (error_set errorCode s)))))"

definition initialize :: "env \<Rightarrow> source \<Rightarrow> store \<Rightarrow> store" where
  "initialize E src s =
     (let s0 = s\<lparr>imageWorker := True\<rparr> in
      if \<not> requirements E then error_set (Error src REQUIREMENTS_NOT_MET) s0
      else
        let s1 = emit WorkerInit s0 in
        case workerInit E (trace s1) of
          Some r \<Rightarrow> error_set (Error src UNKNOWN) s1
        | None \<Rightarrow>
            let s2 = emit LoadManifest s1 in
            case loadManifest E (trace s2) of
              Inl r \<Rightarrow> error_set (Error src UNKNOWN) s2
            | Inr m \<Rightarrow>
                let s3 = s2\<lparr>manifest := Some m\<rparr> in
                if length m = 0 then error_set (Error src UNKNOWN) s3
                else step_set READY s3)"

text \<open>The four phases in sequence; the first one that throws ends the sequence.\<close>

definition phases :: "env \<Rightarrow> source \<Rightarrow> store \<Rightarrow> outcome" where
  "phases E src s =
     (case downloadImages E src s of
        (Some err, s1) \<Rightarrow> (Some err, s1)
      | (None, s1) \<Rightarrow>
     (case unpackImages E src s1 of
        (Some err, s2) \<Rightarrow> (Some err, s2)
      | (None, s2) \<Rightarrow>
     (case flashDevice E src s2 of
        (Some err, s3) \<Rightarrow> (Some err, s3)
      | (None, s3) \<Rightarrow> eraseDevice E src s3)))"

text \<open>The \<^verbatim>\<open>try\<close> block of \<^verbatim>\<open>startFlashing\<close>.\<close>

definition startFlashing_try :: "env \<Rightarrow> source \<Rightarrow> store \<Rightarrow> outcome" where
  "startFlashing_try E src s =
     (let s1 = emit WaitForConnect s in
      case waitForConnect E (trace s1) of
        Some r \<Rightarrow> (Some r, s1)
      | None \<Rightarrow>
          let s2 = emit GetDevicePartitionsInfo s1 in
          case getDevicePartitionsInfo E (trace s2) of
            Inl r \<Rightarrow> (Some r, s2)
          | Inr (slotCount, partitions) \<Rightarrow>
              let recognized = isRecognizedDevice slotCount partitions in
              if \<not> recognized then (None, error_set (Error src UNRECOGNIZED_DEVICE) s2)
              else
                let s3 = serial_set (if saharaSerial E (trace s2) \<noteq> []
                                     then saharaSerial E (trace s2) else ''unknown'') s2;
                    s4 = connected_set True s3;
                    s5 = step_set DOWNLOADING s4
                in case phases E src s5 of
                     (Some err, s6) \<Rightarrow> (Some err, s6)
                   | (None, s6) \<Rightarrow> (None, step_set DONE s6))"

text \<open>
  \<^verbatim>\<open>startFlashing\<close>.  The result is \<open>Some v\<close> when the promise it returns rejects
  with \<open>v\<close>, which only happens when \<^verbatim>\<open>handleError\<close> itself throws.
\<close>

definition startFlashing :: "env \<Rightarrow> source \<Rightarrow> store \<Rightarrow> outcome" where
  "startFlashing E src s =
     (case startFlashing_try E src (step_set CONNECTING s) of
        (Some err, s1) \<Rightarrow> handleError err s1
      | (None, s1) \<Rightarrow> (None, s1))"

text \<open>\<^verbatim>\<open>handleRetry\<close> of the view: \<^verbatim>\<open>if (onRetry) onRetry()\<close>. True when the page reloads.\<close>

definition handleRetry :: "store \<Rightarrow> bool" where
  "handleRetry s = (case onRetry s of None \<Rightarrow> False | Some f \<Rightarrow> performsReload f)"

subsection \<open>Reading a trace\<close>

text \<open>The events a run has added to the trace.\<close>

definition newEvents :: "store \<Rightarrow> store \<Rightarrow> event list" where
  "newEvents s s' = drop (length (trace s)) (trace s')"




fun stepsOf :: "event list \<Rightarrow> Step list" where
  "stepsOf [] = []"
| "stepsOf (SetStep v # evs) = v # stepsOf evs"
| "stepsOf (e # evs) = stepsOf evs"

fun errorsOf :: "event list \<Rightarrow> jsval list" where
  "errorsOf [] = []"
| "errorsOf (SetError v # evs) = v # errorsOf evs"
| "errorsOf (e # evs) = errorsOf evs"

subsection \<open>Sample collaborators\<close>

text \<open>A driver, worker and loader that never fail: a two-slot device on slot \<open>a\<close>.\<close>

definition env_ok :: env where
  "env_ok =
     \<lparr>requirements = True,
      workerInit = (\<lambda>h. None),
      loadManifest = (\<lambda>h. Inr [\<lparr>name = ''boot''\<rparr>, \<lparr>name = ''system''\<rparr>]),
      downloadImage = (\<lambda>h img. None),
      unpackImage = (\<lambda>h img. None),
      getImage = (\<lambda>h img. Inr [1, 2, 3]),
      waitForConnect = (\<lambda>h. None),
      getDevicePartitionsInfo = (\<lambda>h. Inr (2, [''boot'', ''system'', ''userdata''])),
      saharaSerial = (\<lambda>h. ''1a2b3c''),
      getActiveSlot = (\<lambda>h. Inr ''a''),
      setActiveSlot = (\<lambda>h x. None),
      erase = (\<lambda>h p. None),
      flashBlob = (\<lambda>h p b. None),
      reset = (\<lambda>h. None),
      itemProgress = (\<lambda>h. [1 / 2])\<rparr>"




text \<open>A driver whose \<^verbatim>\<open>waitForConnect\<close> rejects with a plain message.\<close>

definition env_no_device :: env where
  "env_no_device = env_ok\<lparr>waitForConnect := (\<lambda>h. Some (JStr ''No device selected''))\<rparr>"


text \<open>A manifest of five images, and a worker that fails to download the second.\<close>

definition five_images :: "ManifestImage list" where
  "five_images = [\<lparr>name = ''boot''\<rparr>, \<lparr>name = ''system''\<rparr>, \<lparr>name = ''abl''\<rparr>,
                  \<lparr>name = ''xbl''\<rparr>, \<lparr>name = ''aop''\<rparr>]"

definition env_download_fails :: env where
  "env_download_fails = env_ok
     \<lparr>loadManifest := (\<lambda>h. Inr five_images),
      downloadImage := (\<lambda>h img. if name img = ''system''
                                  then Some (JStr ''Network error'') else None)\<rparr>"

text \<open>
  The same manifest, and a worker that fails to unpack the second image: once for
  want of space, once on a checksum.
\<close>

definition env_unpack_fails :: env where
  "env_unpack_fails = env_ok
     \<lparr>loadManifest := (\<lambda>h. Inr five_images),
      unpackImage := (\<lambda>h img. if name img = ''system''
                                then Some (JStr ''No space left on device'') else None)\<rparr>"

definition env_checksum_fails :: env where
  "env_checksum_fails = env_ok
     \<lparr>loadManifest := (\<lambda>h. Inr five_images),
      unpackImage := (\<lambda>h img. if name img = ''system''
                                then Some (JStr ''Checksum mismatch: got 0f3a, expected 9c1e'')
                                else None)\<rparr>"

subsection \<open>The life of the store\<close>

text \<open>
  The store exports two operations.  A process calls them in some order, each call
  running to its end before the next begins.
\<close>

datatype operation = Initialize | StartFlashing

fun perform :: "env \<Rightarrow> source \<Rightarrow> operation \<Rightarrow> store \<Rightarrow> store" where
  "perform E src Initialize s = initialize E src s"
| "perform E src StartFlashing s = snd (startFlashing E src s)"

definition run :: "env \<Rightarrow> source \<Rightarrow> operation list \<Rightarrow> store \<Rightarrow> store" where
  "run E src ops s = fold (perform E src) ops s"

subsection \<open>What a phase leaves alone\<close>

text \<open>
  The four phases never touch \<^verbatim>\<open>error\<close>, the hooks or the captured variables; they
  only add to the trace, never a \<^verbatim>\<open>error.set\<close>, and the only steps they publish
  are \<open>UNPACKING\<close> and \<open>FLASHING\<close>.
\<close>

definition phase_frame :: "store \<Rightarrow> store \<Rightarrow> bool" where
  "phase_frame s s' \<longleftrightarrow>
     error s' = error s \<and> imageWorker s' = imageWorker s \<and> manifest s' = manifest s
     \<and> onContinue s' = onContinue s \<and> onRetry s' = onRetry s
     \<and> (step s' = step s \<or> step s' = UNPACKING \<or> step s' = FLASHING)
     \<and> (\<exists>evs. trace s' = trace s @ evs \<and> errorsOf evs = []
            \<and> set (stepsOf evs) \<subseteq> {UNPACKING, FLASHING})"

text \<open>The values a phase can throw.\<close>

definition raised :: "source \<Rightarrow> jsval \<Rightarrow> bool" where
  "raised src e \<longleftrightarrow>
     e = Error src DOWNLOAD_FAILED \<or> e = Error src CHECKSUM_MISMATCH
     \<or> e = Error src UNPACK_FAILED \<or> e = Error src FLASH_FAILED
     \<or> e = Error src ERASE_FAILED \<or> e = TypeError"

section \<open>Properties\<close>

lemmas setters = emit_def step_set_def message_set_def progress_set_def error_set_def
  connected_set_def serial_set_def onContinue_set_def onRetry_set_def setMessage_def

subsection \<open>Device recognition\<close>

text \<open>
  C3.  The validator rejects every device whose slot count is not 2; with a slot
  count of 2 it accepts exactly when every reported partition is on the allow-list,
  so it accepts the empty partition list.
\<close>

theorem isRecognizedDevice_allow_list:
  "(slotCount \<noteq> 2 \<longrightarrow> \<not> isRecognizedDevice slotCount partitions)
   \<and> (isRecognizedDevice 2 partitions \<longleftrightarrow> (\<forall>p \<in> set partitions. p \<in> set expectedPartitions))
   \<and> isRecognizedDevice 2 []"
  by (simp add: isRecognizedDevice_def list_all_iff)

theorem isRecognizedDevice_allow_list_witness:
  "(3::int) \<noteq> 2 \<and> \<not> isRecognizedDevice 3 [''boot'']
   \<and> ''boot'' \<in> set expectedPartitions \<and> ''userdata'' \<in> set expectedPartitions
   \<and> isRecognizedDevice 2 [''boot'', ''userdata'']
   \<and> ''bogus'' \<notin> set expectedPartitions
   \<and> \<not> isRecognizedDevice 2 [''boot'', ''bogus'']"
  using isRecognizedDevice_allow_list [of 3 "[''boot'']"]
    isRecognizedDevice_allow_list [of 2 "[''boot'', ''userdata'']"]
    isRecognizedDevice_allow_list [of 2 "[''boot'', ''bogus'']"]
  by (simp add: expectedPartitions_def)

subsection \<open>The phases only add to the trace\<close>

lemma errorsOf_append: "errorsOf (xs @ ys) = errorsOf xs @ errorsOf ys"
  by (induction xs rule: errorsOf.induct) simp_all

lemma errorsOf_SetProgress: "errorsOf (map SetProgress vs) = []"
  by (induction vs) simp_all

lemma stepsOf_append: "stepsOf (xs @ ys) = stepsOf xs @ stepsOf ys"
  by (induction xs rule: stepsOf.induct) simp_all

lemma stepsOf_SetProgress: "stepsOf (map SetProgress vs) = []"
  by (induction vs) simp_all


lemma fold_progress_set_trace:
  "trace (fold progress_set vs s) = trace s @ map SetProgress vs"
  by (induction vs arbitrary: s) (simp_all add: progress_set_def emit_def)

lemma fold_progress_set_frame:
  "step (fold progress_set vs s) = step s \<and> error (fold progress_set vs s) = error s
   \<and> imageWorker (fold progress_set vs s) = imageWorker s
   \<and> manifest (fold progress_set vs s) = manifest s
   \<and> onContinue (fold progress_set vs s) = onContinue s
   \<and> onRetry (fold progress_set vs s) = onRetry s"
  by (induction vs arbitrary: s) (simp_all add: progress_set_def emit_def)

lemma phase_frame_refl: "phase_frame s s"
  by (simp add: phase_frame_def)

lemma phase_frame_trans: "phase_frame s s' \<Longrightarrow> phase_frame s' s'' \<Longrightarrow> phase_frame s s''"
  unfolding phase_frame_def by (auto simp: errorsOf_append stepsOf_append)

lemma phase_frame_publish: "phase_frame s (withProgress_publish E s)"
  unfolding phase_frame_def withProgress_publish_def
  by (simp add: fold_progress_set_trace fold_progress_set_frame errorsOf_SetProgress
      stepsOf_SetProgress)

lemma phase_frame_emit:
  "\<forall>v w. e \<noteq> SetError v \<and> e \<noteq> SetStep w \<Longrightarrow> phase_frame s (emit e s)"
  unfolding phase_frame_def emit_def by (cases e) simp_all

lemma phase_frame_setMessage: "phase_frame s (setMessage m s)"
  unfolding phase_frame_def by (simp add: setters)

lemma phase_frame_progress_set: "phase_frame s (progress_set v s)"
  unfolding phase_frame_def by (simp add: setters)

lemma phase_frame_connected_set: "phase_frame s (connected_set v s)"
  unfolding phase_frame_def by (simp add: setters)

lemma phase_frame_step_set: "v = UNPACKING \<or> v = FLASHING \<Longrightarrow> phase_frame s (step_set v s)"
  unfolding phase_frame_def by (auto simp add: setters)

lemma pf_setMessage: "phase_frame s t \<Longrightarrow> phase_frame s (setMessage m t)"
  by (rule phase_frame_trans[OF _ phase_frame_setMessage])

lemma pf_progress_set: "phase_frame s t \<Longrightarrow> phase_frame s (progress_set v t)"
  by (rule phase_frame_trans[OF _ phase_frame_progress_set])

lemma pf_connected_set: "phase_frame s t \<Longrightarrow> phase_frame s (connected_set v t)"
  by (rule phase_frame_trans[OF _ phase_frame_connected_set])

lemma pf_publish: "phase_frame s t \<Longrightarrow> phase_frame s (withProgress_publish E t)"
  by (rule phase_frame_trans[OF _ phase_frame_publish])

lemma pf_emit:
  "phase_frame s t \<Longrightarrow> \<forall>v w. e \<noteq> SetError v \<and> e \<noteq> SetStep w \<Longrightarrow> phase_frame s (emit e t)"
  by (rule phase_frame_trans[OF _ phase_frame_emit])

lemma pf_step_set:
  "phase_frame s t \<Longrightarrow> v = UNPACKING \<or> v = FLASHING \<Longrightarrow> phase_frame s (step_set v t)"
  by (rule phase_frame_trans[OF _ phase_frame_step_set])

lemmas pf_intros = pf_setMessage pf_progress_set pf_connected_set pf_publish pf_emit
  pf_step_set phase_frame_refl

lemma downloadLoop_frame:
  "downloadLoop E imgs s = (r, s') \<Longrightarrow> phase_frame s s'"
proof (induction imgs arbitrary: s)
  case Nil
  then show ?case by (simp add: phase_frame_refl)
next
  case (Cons img rest)
  let ?s1 = "setMessage (''Downloading '' @ name img) s"
  let ?s2 = "emit (DownloadImage img) ?s1"
  let ?s3 = "withProgress_publish E ?s2"
  have f1: "phase_frame s ?s1" by (intro pf_intros)
  have f3: "phase_frame s ?s3" by (intro pf_intros) simp
  show ?case
  proof (cases "imageWorker ?s1")
    case False
    with Cons.prems f1 show ?thesis by (simp add: Let_def)
  next
    case True
    show ?thesis
    proof (cases "downloadImage E (trace ?s2) img")
      case None
      with True Cons.prems have "downloadLoop E rest ?s3 = (r, s')" by (simp add: Let_def)
      from phase_frame_trans[OF f3 Cons.IH[OF this]] show ?thesis .
    next
      case (Some rej)
      with True Cons.prems f3 show ?thesis by (simp add: Let_def)
    qed
  qed
qed

lemma unpackLoop_frame:
  "unpackLoop E imgs s = (r, s') \<Longrightarrow> phase_frame s s'"
proof (induction imgs arbitrary: s)
  case Nil
  then show ?case by (simp add: phase_frame_refl)
next
  case (Cons img rest)
  let ?s1 = "setMessage (''Unpacking '' @ name img) s"
  let ?s2 = "emit (UnpackImage img) ?s1"
  let ?s3 = "withProgress_publish E ?s2"
  have f1: "phase_frame s ?s1" by (intro pf_intros)
  have f3: "phase_frame s ?s3" by (intro pf_intros) simp
  show ?case
  proof (cases "imageWorker ?s1")
    case False
    with Cons.prems f1 show ?thesis by (simp add: Let_def)
  next
    case True
    show ?thesis
    proof (cases "unpackImage E (trace ?s2) img")
      case None
      with True Cons.prems have "unpackLoop E rest ?s3 = (r, s')" by (simp add: Let_def)
      from phase_frame_trans[OF f3 Cons.IH[OF this]] show ?thesis .
    next
      case (Some rej)
      with True Cons.prems f3 show ?thesis by (simp add: Let_def)
    qed
  qed
qed

lemma flashLoop_frame:
  "flashLoop E slot imgs s = (r, s') \<Longrightarrow> phase_frame s s'"
proof (induction imgs arbitrary: s)
  case Nil
  then show ?case by (simp add: phase_frame_refl)
next
  case (Cons img rest)
  let ?s1 = "emit (GetImage img) s"
  have f1: "phase_frame s ?s1" by (intro pf_intros) simp
  show ?case
  proof (cases "imageWorker s")
    case False
    with Cons.prems show ?thesis by (simp add: phase_frame_refl)
  next
    case True
    show ?thesis
    proof (cases "getImage E (trace ?s1) img")
      case (Inl rej)
      with True Cons.prems f1 show ?thesis by (simp add: Let_def)
    next
      case (Inr blob)
      let ?s2 = "setMessage (''Flashing '' @ name img) ?s1"
      let ?p = "name img @ ''_'' @ slot"
      let ?s3 = "emit (FlashBlob ?p blob) ?s2"
      let ?s4 = "withProgress_publish E ?s3"
      have f4: "phase_frame s ?s4" by (intro pf_intros) simp_all
      show ?thesis
      proof (cases "flashBlob E (trace ?s3) ?p blob")
        case None
        with True Inr Cons.prems have "flashLoop E slot rest ?s4 = (r, s')"
          by (simp add: Let_def)
        from phase_frame_trans[OF f4 Cons.IH[OF this]] show ?thesis .
      next
        case (Some rej)
        with True Inr Cons.prems f4 show ?thesis by (simp add: Let_def)
      qed
    qed
  qed
qed

lemma downloadEach_frame: "downloadEach E s = (r, s') \<Longrightarrow> phase_frame s s'"
  by (cases "manifest s") (auto simp: downloadEach_def phase_frame_refl dest: downloadLoop_frame)

lemma unpackEach_frame: "unpackEach E s = (r, s') \<Longrightarrow> phase_frame s s'"
  by (cases "manifest s") (auto simp: unpackEach_def phase_frame_refl dest: unpackLoop_frame)

lemma flashEach_frame: "flashEach E slot s = (r, s') \<Longrightarrow> phase_frame s s'"
  by (cases "manifest s") (auto simp: flashEach_def phase_frame_refl dest: flashLoop_frame)

lemma downloadImages_frame:
  assumes "downloadImages E src s = (r, s')"
  shows "phase_frame s s' \<and> (r = None \<or> r = Some (Error src DOWNLOAD_FAILED) \<or> r = Some TypeError)"
proof (cases "src = FlashTS \<and> \<not> imageWorker s")
  case True
  with assms show ?thesis by (simp add: downloadImages_def phase_frame_refl)
next
  case False
  obtain r0 s0 where body: "downloadEach E (progress_set 0 s) = (r0, s0)"
    by (cases "downloadEach E (progress_set 0 s)")
  have f1: "phase_frame s s0"
    by (rule phase_frame_trans[OF phase_frame_progress_set downloadEach_frame[OF body]])
  show ?thesis
  proof (cases r0)
    case None
    with assms False body have "s' = step_set UNPACKING s0" "r = None"
      by (simp_all add: downloadImages_def)
    with f1 show ?thesis by (simp add: pf_step_set)
  next
    case (Some a)
    with assms False body f1 show ?thesis by (simp add: downloadImages_def)
  qed
qed

lemma startsWith_cases:
  "startsWith e p = Inl x \<Longrightarrow> x = TypeError"
  by (cases e) simp_all

lemma unpackImages_frame:
  assumes "unpackImages E src s = (r, s')"
  shows "phase_frame s s' \<and> (r = None \<or> r = Some (Error src CHECKSUM_MISMATCH)
     \<or> r = Some (Error src UNPACK_FAILED) \<or> r = Some TypeError)"
proof (cases "src = FlashTS \<and> \<not> imageWorker s")
  case True
  with assms show ?thesis by (simp add: unpackImages_def phase_frame_refl)
next
  case False
  obtain r0 s0 where body: "unpackEach E (progress_set 0 s) = (r0, s0)"
    by (cases "unpackEach E (progress_set 0 s)")
  have f1: "phase_frame s s0"
    by (rule phase_frame_trans[OF phase_frame_progress_set unpackEach_frame[OF body]])
  show ?thesis
  proof (cases r0)
    case None
    with assms False body have "s' = step_set FLASHING s0" "r = None"
      by (simp_all add: unpackImages_def)
    with f1 show ?thesis by (simp add: pf_step_set)
  next
    case (Some err)
    show ?thesis
    proof (cases "startsWith err ''Checksum mismatch''")
      case (Inl x)
      with Some assms False body f1 startsWith_cases[OF Inl] show ?thesis
        by (simp add: unpackImages_def)
    next
      case (Inr b)
      with Some assms False body f1 show ?thesis by (cases b) (simp_all add: unpackImages_def)
    qed
  qed
qed

lemma flashOther_frame:
  assumes "flashOther E currentSlot s = (r, s')"
  shows "phase_frame s s'"
proof -
  let ?other = "otherSlot currentSlot"
  let ?s1 = "emit (Erase (''xbl'' @ ''_'' @ currentSlot)) s"
  have f1: "phase_frame s ?s1" by (intro pf_intros) simp
  show ?thesis
  proof (cases "erase E (trace ?s1) (''xbl'' @ ''_'' @ currentSlot)")
    case (Some rej)
    with assms f1 show ?thesis by (simp add: flashOther_def Let_def)
  next
    case None
    obtain r0 s2 where body: "flashEach E ?other ?s1 = (r0, s2)"
      by (cases "flashEach E ?other ?s1")
    have f2: "phase_frame s s2"
      by (rule phase_frame_trans[OF f1 flashEach_frame[OF body]])
    let ?s3 = "setMessage (''Changing slot to '' @ ?other) s2"
    let ?s4 = "emit (SetActiveSlot ?other) ?s3"
    have f4: "phase_frame s ?s4" by (intro pf_emit pf_setMessage f2) simp
    show ?thesis
    proof (cases r0)
      case (Some err)
      with assms None body f2 show ?thesis
        by (simp add: flashOther_def Let_def)
    next
      case r0: None
      with assms None body f4 show ?thesis
        by (cases "setActiveSlot E (trace ?s4) ?other") (simp_all add: flashOther_def Let_def)
    qed
  qed
qed

lemma flashBody_frame:
  assumes "flashBody E s = (r, s')"
  shows "phase_frame s s'"
proof -
  let ?s1 = "emit GetActiveSlot s"
  have f1: "phase_frame s ?s1" by (intro pf_intros) simp
  show ?thesis
  proof (cases "getActiveSlot E (trace ?s1)")
    case (Inl rej)
    with assms f1 show ?thesis by (simp add: flashBody_def Let_def)
  next
    case (Inr currentSlot)
    show ?thesis
    proof (cases "currentSlot \<notin> set [''a'', ''b'']")
      case True
      with Inr assms f1 show ?thesis by (simp add: flashBody_def Let_def)
    next
      case False
      with Inr assms have "flashOther E currentSlot ?s1 = (r, s')"
        by (simp add: flashBody_def Let_def del: set_simps)
      from phase_frame_trans[OF f1 flashOther_frame[OF this]] show ?thesis .
    qed
  qed
qed

lemma flashDevice_frame:
  assumes "flashDevice E src s = (r, s')"
  shows "phase_frame s s' \<and> (r = None \<or> r = Some (Error src FLASH_FAILED) \<or> r = Some TypeError)"
proof (cases "src = FlashTS \<and> \<not> imageWorker s")
  case True
  with assms show ?thesis by (simp add: flashDevice_def phase_frame_refl)
next
  case False
  obtain r0 s0 where body: "flashBody E (progress_set 0 s) = (r0, s0)"
    by (cases "flashBody E (progress_set 0 s)")
  have f: "phase_frame s s0"
    by (rule phase_frame_trans[OF phase_frame_progress_set flashBody_frame[OF body]])
  from assms False body f show ?thesis
    by (cases r0) (simp_all add: flashDevice_def)
qed

lemma eraseBody_frame:
  assumes "eraseBody E s = (r, s')"
  shows "phase_frame s s'"
proof -
  let ?s1 = "setMessage ''Erasing userdata'' s"
  let ?s2 = "emit (FlashBlob ''userdata'' erasePayload) ?s1"
  have f2: "phase_frame s ?s2" by (intro pf_intros) simp
  show ?thesis
  proof (cases "flashBlob E (trace ?s2) ''userdata'' erasePayload")
    case (Some rej)
    with assms f2 show ?thesis by (simp add: eraseBody_def Let_def)
  next
    case None
    let ?s3 = "progress_set (9 / 10) ?s2"
    let ?s4 = "setMessage ''Rebooting'' ?s3"
    let ?s5 = "emit Reset ?s4"
    have f5: "phase_frame s ?s5" by (intro pf_intros) simp_all
    have f6: "phase_frame s (connected_set False (progress_set 1 ?s5))"
      by (intro pf_connected_set pf_progress_set f5)
    from assms None f5 f6 show ?thesis
      by (cases "reset E (trace ?s5)") (simp_all add: eraseBody_def Let_def)
  qed
qed

lemma eraseDevice_frame:
  assumes "eraseDevice E src s = (r, s')"
  shows "phase_frame s s' \<and> (r = None \<or> r = Some (Error src ERASE_FAILED))"
proof -
  obtain r0 s0 where body: "eraseBody E (progress_set 0 s) = (r0, s0)"
    by (cases "eraseBody E (progress_set 0 s)")
  have f: "phase_frame s s0"
    by (rule phase_frame_trans[OF phase_frame_progress_set eraseBody_frame[OF body]])
  from assms body f show ?thesis
    by (cases r0) (simp_all add: eraseDevice_def)
qed

lemma phases_frame:
  assumes "phases E src s = (r, s')"
  shows "phase_frame s s' \<and> (r = None \<or> (\<exists>e. r = Some e \<and> raised src e))"
proof -
  obtain r1 s1 where d: "downloadImages E src s = (r1, s1)" by (cases "downloadImages E src s")
  note fd = downloadImages_frame[OF d]
  show ?thesis
  proof (cases r1)
    case (Some e)
    with assms d fd show ?thesis by (auto simp: phases_def raised_def)
  next
    case None
    obtain r2 s2 where u: "unpackImages E src s1 = (r2, s2)" by (cases "unpackImages E src s1")
    note fu = unpackImages_frame[OF u]
    have f2: "phase_frame s s2" using fd fu by (blast intro: phase_frame_trans)
    show ?thesis
    proof (cases r2)
      case (Some e)
      with assms d u None fu f2 show ?thesis by (auto simp: phases_def raised_def)
    next
      case r2: None
      obtain r3 s3 where f: "flashDevice E src s2 = (r3, s3)" by (cases "flashDevice E src s2")
      note ff = flashDevice_frame[OF f]
      have f3: "phase_frame s s3" using f2 ff by (blast intro: phase_frame_trans)
      show ?thesis
      proof (cases r3)
        case (Some e)
        with assms d u f None r2 ff f3 show ?thesis by (auto simp: phases_def raised_def)
      next
        case r3: None
        have e: "eraseDevice E src s3 = (r, s')"
          using assms d u f None r2 r3 by (simp add: phases_def)
        note fe = eraseDevice_frame[OF e]
        have "phase_frame s s'" using f3 fe by (blast intro: phase_frame_trans)
        with fe show ?thesis by (auto simp: raised_def)
      qed
    qed
  qed
qed

subsection \<open>How \<^verbatim>\<open>startFlashing\<close> can end\<close>

lemma handleError_undefined: "handleError JUndefined s = (Some TypeError, s)"
  by (simp add: handleError_def)

lemma handleError_publishes:
  assumes "err \<noteq> JUndefined"
  shows "\<exists>v s'. handleError err s = (None, s') \<and> error s' = v \<and> step s' = step s
     \<and> trace s' = trace s @ [SetError v, SetProgress (- 1), SetOnContinue None,
          SetOnRetry (Some (Returns ReloadPage))]
     \<and> progress s' = - 1 \<and> onContinue s' = None \<and> onRetry s' = Some (Returns ReloadPage)
     \<and> (case err of JObj c \<Rightarrow> v = (if truthy c then c else err) | _ \<Rightarrow> v = err)"
  using assms by (cases err) (simp_all add: handleError_def Let_def setters)

lemma startFlashing_try_trace:
  "\<exists>evs. trace (snd (startFlashing_try E src s)) = trace s @ WaitForConnect # evs"
proof -
  let ?s1 = "emit WaitForConnect s"
  let ?s2 = "emit GetDevicePartitionsInfo ?s1"
  show ?thesis
  proof (cases "waitForConnect E (trace ?s1)")
    case (Some rej)
    then show ?thesis by (simp add: startFlashing_try_def Let_def emit_def)
  next
    case None
    show ?thesis
    proof (cases "getDevicePartitionsInfo E (trace ?s2)")
      case (Inl rej)
      with None show ?thesis by (simp add: startFlashing_try_def Let_def emit_def)
    next
      case (Inr info)
      obtain slotCount partitions where info: "info = (slotCount, partitions)" by (cases info)
      show ?thesis
      proof (cases "isRecognizedDevice slotCount partitions")
        case False
        with None Inr info show ?thesis
          by (simp add: startFlashing_try_def Let_def emit_def error_set_def)
      next
        case True
        let ?s3 = "serial_set (if saharaSerial E (trace ?s2) \<noteq> []
                                     then saharaSerial E (trace ?s2) else ''unknown'') ?s2"
        let ?s5 = "step_set DOWNLOADING (connected_set True ?s3)"
        obtain r6 s6 where ph: "phases E src ?s5 = (r6, s6)" by (cases "phases E src ?s5")
        from phases_frame[OF ph] obtain evs where
          evs: "trace s6 = trace ?s5 @ evs" by (auto simp: phase_frame_def)
        have t5: "trace ?s5 = trace s @ WaitForConnect # GetDevicePartitionsInfo #
           [SetSerial (if saharaSerial E (trace ?s2) \<noteq> []
                                     then saharaSerial E (trace ?s2) else ''unknown''),
            SetConnected True, SetStep DOWNLOADING]"
          by (simp add: setters)
        have "snd (startFlashing_try E src s) = (case r6 of Some e \<Rightarrow> s6 | None \<Rightarrow> step_set DONE s6)"
          using None Inr info True ph by (cases r6) (simp_all add: startFlashing_try_def Let_def)
        then show ?thesis using evs t5 by (cases r6) (simp_all add: setters)
      qed
    qed
  qed
qed

lemma startFlashing_trace_prefix:
  "\<exists>evs. trace (snd (startFlashing E src s)) = trace s @ SetStep CONNECTING # WaitForConnect # evs"
proof -
  let ?s0 = "step_set CONNECTING s"
  obtain r1 s1 where t: "startFlashing_try E src ?s0 = (r1, s1)"
    by (cases "startFlashing_try E src ?s0")
  from startFlashing_try_trace[of E src ?s0] t obtain evs where
    evs: "trace s1 = trace s @ SetStep CONNECTING # WaitForConnect # evs"
    by (auto simp: setters)
  show ?thesis
  proof (cases r1)
    case None
    with t evs show ?thesis by (simp add: startFlashing_def)
  next
    case (Some err)
    show ?thesis
    proof (cases "err = JUndefined")
      case True
      with Some t evs show ?thesis by (simp add: startFlashing_def handleError_undefined)
    next
      case False
      from handleError_publishes[OF False, of s1] Some t evs show ?thesis
        by (auto simp: startFlashing_def)
    qed
  qed
qed








subsection \<open>Starting a session\<close>

text \<open>
  C10.  \<^verbatim>\<open>startFlashing\<close> tests neither the step nor the error it is called in:
  from every state of the store, whatever the collaborators do, the first two things
  it does are to publish the step \<open>CONNECTING\<close> and to call the driver's
  \<^verbatim>\<open>waitForConnect\<close>.
\<close>

theorem startFlashing_first_effect:
  "take 2 (newEvents s (snd (startFlashing E src s))) = [SetStep CONNECTING, WaitForConnect]"
proof -
  from startFlashing_trace_prefix[of E src s] obtain evs where
    "trace (snd (startFlashing E src s)) = trace s @ SetStep CONNECTING # WaitForConnect # evs"
    by blast
  then show ?thesis by (simp add: newEvents_def)
qed

subsection \<open>The error field at \<open>DONE\<close>\<close>




subsection \<open>Nothing but a rejection with 0 resets the error field\<close>










subsection \<open>The flash phase\<close>











subsection \<open>The erase phase\<close>

lemma erasePayload_bytes:
  "erasePayload = encode ''COMMA_RESET'' @ replicate 17 0
   \<and> length (encode ''COMMA_RESET'') = 11 \<and> length erasePayload = 28
   \<and> encode ''COMMA_RESET'' = [67, 79, 77, 77, 65, 95, 82, 69, 83, 69, 84]"
  by (simp add: erasePayload_def encode_def concatUint8Array_def Let_def)

text \<open>
  C2.  The payload is the 11 bytes of \<^verbatim>\<open>COMMA_RESET\<close> followed by 17 zero bytes, 28
  bytes in all.  The erase phase first publishes progress 0 and its message and
  writes the payload to the partition \<open>userdata\<close>; when the phase succeeds, what it
  does is exactly: that write, progress 0.9, the message, the device reset, progress
  1, connected false.  It succeeds exactly when the driver accepts the write and the
  reset.
\<close>

theorem eraseDevice_sequence:
  assumes "eraseDevice E src s = (r, s')"
  shows "erasePayload = encode ''COMMA_RESET'' @ replicate 17 0
     \<and> length (encode ''COMMA_RESET'') = 11 \<and> length erasePayload = 28
     \<and> take 3 (newEvents s s')
         = [SetProgress 0, SetMessage ''Erasing userdata'', FlashBlob ''userdata'' erasePayload]
     \<and> (r = None \<longrightarrow>
          newEvents s s'
            = [SetProgress 0, SetMessage ''Erasing userdata'', FlashBlob ''userdata'' erasePayload,
               SetProgress (9 / 10), SetMessage ''Rebooting'', Reset,
               SetProgress 1, SetConnected False]
          \<and> progress s' = 1 \<and> connected s' = False)
     \<and> (r = None \<longleftrightarrow>
          flashBlob E (trace s @ [SetProgress 0, SetMessage ''Erasing userdata'',
                                  FlashBlob ''userdata'' erasePayload]) ''userdata'' erasePayload = None
          \<and> reset E (trace s @ [SetProgress 0, SetMessage ''Erasing userdata'',
                                FlashBlob ''userdata'' erasePayload, SetProgress (9 / 10),
                                SetMessage ''Rebooting'', Reset]) = None)"
proof -
  let ?t2 = "trace s @ [SetProgress 0, SetMessage ''Erasing userdata'',
                                  FlashBlob ''userdata'' erasePayload]"
  let ?t5 = "trace s @ [SetProgress 0, SetMessage ''Erasing userdata'',
                                FlashBlob ''userdata'' erasePayload, SetProgress (9 / 10),
                                SetMessage ''Rebooting'', Reset]"
  have main: "take 3 (newEvents s s')
         = [SetProgress 0, SetMessage ''Erasing userdata'', FlashBlob ''userdata'' erasePayload]
     \<and> (r = None \<longrightarrow>
          newEvents s s'
            = [SetProgress 0, SetMessage ''Erasing userdata'', FlashBlob ''userdata'' erasePayload,
               SetProgress (9 / 10), SetMessage ''Rebooting'', Reset,
               SetProgress 1, SetConnected False]
          \<and> progress s' = 1 \<and> connected s' = False)
     \<and> (r = None \<longleftrightarrow> flashBlob E ?t2 ''userdata'' erasePayload = None \<and> reset E ?t5 = None)"
  proof (cases "flashBlob E ?t2 ''userdata'' erasePayload")
    case (Some rej)
    with assms show ?thesis
      by (auto simp: eraseDevice_def eraseBody_def Let_def setters newEvents_def)
  next
    case None
    show ?thesis
    proof (cases "reset E ?t5")
      case (Some rej)
      with None assms show ?thesis
        by (auto simp: eraseDevice_def eraseBody_def Let_def setters newEvents_def)
    next
      case r5: None
      with None assms show ?thesis
        by (auto simp: eraseDevice_def eraseBody_def Let_def setters newEvents_def)
    qed
  qed
  with erasePayload_bytes show ?thesis by blast
qed

theorem eraseDevice_sequence_witness:
  "fst (eraseDevice env_ok FlashTS (createQdlStore FlashTS)) = None
   \<and> newEvents (createQdlStore FlashTS) (snd (eraseDevice env_ok FlashTS (createQdlStore FlashTS)))
       = [SetProgress 0, SetMessage ''Erasing userdata'', FlashBlob ''userdata'' erasePayload,
          SetProgress (9 / 10), SetMessage ''Rebooting'', Reset, SetProgress 1, SetConnected False]
   \<and> erasePayload = [67, 79, 77, 77, 65, 95, 82, 69, 83, 69, 84,
                     0, 0, 0, 0, 0, 0, 0, 0, 0, 0, 0, 0, 0, 0, 0, 0, 0]"
proof -
  let ?s = "createQdlStore FlashTS"
  let ?o = "eraseDevice env_ok FlashTS ?s"
  have o: "?o = (fst ?o, snd ?o)" by simp
  have ok: "flashBlob env_ok (trace ?s @ [SetProgress 0, SetMessage ''Erasing userdata'',
                FlashBlob ''userdata'' erasePayload]) ''userdata'' erasePayload = None
     \<and> reset env_ok (trace ?s @ [SetProgress 0, SetMessage ''Erasing userdata'',
                FlashBlob ''userdata'' erasePayload, SetProgress (9 / 10),
                SetMessage ''Rebooting'', Reset]) = None"
    by (simp add: env_ok_def)
  have p: "erasePayload = [67, 79, 77, 77, 65, 95, 82, 69, 83, 69, 84,
                     0, 0, 0, 0, 0, 0, 0, 0, 0, 0, 0, 0, 0, 0, 0, 0, 0]"
    by code_simp
  from eraseDevice_sequence[OF o] ok p show ?thesis by simp
qed

subsection \<open>Where the code departs from what it sets out to do\<close>

text \<open>
  No call of \<^verbatim>\<open>initialize\<close> or \<^verbatim>\<open>startFlashing\<close>, in any order and with any
  collaborators, publishes the step \<open>ERASING\<close>.
\<close>

lemma startFlashing_try_steps:
  "\<exists>evs. trace (snd (startFlashing_try E src s)) = trace s @ evs
     \<and> ERASING \<notin> set (stepsOf evs)"
proof -
  let ?s1 = "emit WaitForConnect s"
  let ?s2 = "emit GetDevicePartitionsInfo ?s1"
  show ?thesis
  proof (cases "waitForConnect E (trace ?s1)")
    case (Some rej)
    then show ?thesis by (simp add: startFlashing_try_def Let_def emit_def)
  next
    case None
    show ?thesis
    proof (cases "getDevicePartitionsInfo E (trace ?s2)")
      case (Inl rej)
      with None show ?thesis by (simp add: startFlashing_try_def Let_def emit_def)
    next
      case (Inr info)
      obtain slotCount partitions where info: "info = (slotCount, partitions)" by (cases info)
      show ?thesis
      proof (cases "isRecognizedDevice slotCount partitions")
        case False
        with None Inr info show ?thesis
          by (simp add: startFlashing_try_def Let_def emit_def error_set_def)
      next
        case True
        let ?ser = "if saharaSerial E (trace ?s2) \<noteq> []
                                     then saharaSerial E (trace ?s2) else ''unknown''"
        let ?s5 = "step_set DOWNLOADING (connected_set True (serial_set ?ser ?s2))"
        obtain r6 s6 where ph: "phases E src ?s5 = (r6, s6)" by (cases "phases E src ?s5")
        from phases_frame[OF ph] obtain evs where
          evs: "trace s6 = trace ?s5 @ evs" "set (stepsOf evs) \<subseteq> {UNPACKING, FLASHING}"
          by (auto simp: phase_frame_def)
        let ?pre = "[WaitForConnect, GetDevicePartitionsInfo, SetSerial ?ser,
            SetConnected True, SetStep DOWNLOADING]"
        have t5: "trace ?s5 = trace s @ ?pre" by (simp add: setters)
        have e6: "ERASING \<notin> set (stepsOf (?pre @ evs))"
          using evs(2) by (auto simp: stepsOf_append)
        have s': "snd (startFlashing_try E src s)
            = (case r6 of Some e \<Rightarrow> s6 | None \<Rightarrow> step_set DONE s6)"
          using None Inr info True ph by (cases r6) (simp_all add: startFlashing_try_def Let_def)
        show ?thesis
        proof (cases r6)
          case (Some e)
          with s' evs(1) t5 have "trace (snd (startFlashing_try E src s)) = trace s @ (?pre @ evs)"
            by simp
          with e6 show ?thesis by blast
        next
          case r6: None
          with s' evs(1) t5 have "trace (snd (startFlashing_try E src s))
              = trace s @ (?pre @ evs @ [SetStep DONE])"
            by (simp add: setters)
          moreover have "ERASING \<notin> set (stepsOf (?pre @ evs @ [SetStep DONE]))"
            using evs(2) by (auto simp: stepsOf_append)
          ultimately show ?thesis by blast
        qed
      qed
    qed
  qed
qed

lemma handleError_steps:
  "\<exists>evs. trace (snd (handleError err s)) = trace s @ evs \<and> stepsOf evs = []"
  by (cases err) (simp_all add: handleError_def Let_def setters)

lemma startFlashing_steps:
  "\<exists>evs. trace (snd (startFlashing E src s)) = trace s @ evs \<and> ERASING \<notin> set (stepsOf evs)"
proof -
  let ?s0 = "step_set CONNECTING s"
  obtain r1 s1 where t: "startFlashing_try E src ?s0 = (r1, s1)"
    by (cases "startFlashing_try E src ?s0")
  from startFlashing_try_steps[of E src ?s0] t obtain evs1 where
    1: "trace s1 = trace s @ SetStep CONNECTING # evs1" "ERASING \<notin> set (stepsOf evs1)"
    by (auto simp: setters)
  show ?thesis
  proof (cases r1)
    case None
    with t have "snd (startFlashing E src s) = s1" by (simp add: startFlashing_def)
    moreover have "ERASING \<notin> set (stepsOf (SetStep CONNECTING # evs1))" using 1(2) by simp
    ultimately show ?thesis using 1(1) by blast
  next
    case (Some err)
    with t have s': "snd (startFlashing E src s) = snd (handleError err s1)"
      by (simp add: startFlashing_def)
    from handleError_steps[of err s1] obtain evs2 where
      2: "trace (snd (handleError err s1)) = trace s1 @ evs2" "stepsOf evs2 = []" by blast
    have "trace (snd (startFlashing E src s)) = trace s @ (SetStep CONNECTING # evs1 @ evs2)"
      using s' 1(1) 2(1) by simp
    moreover have "ERASING \<notin> set (stepsOf (SetStep CONNECTING # evs1 @ evs2))"
      using 1(2) 2(2) by (simp add: stepsOf_append)
    ultimately show ?thesis by blast
  qed
qed

lemma initialize_steps:
  "\<exists>evs. trace (initialize E src s) = trace s @ evs \<and> ERASING \<notin> set (stepsOf evs)"
proof -
  let ?s1 = "emit WorkerInit (s\<lparr>imageWorker := True\<rparr>)"
  let ?s2 = "emit LoadManifest ?s1"
  show ?thesis
  proof (cases "requirements E")
    case False
    then show ?thesis by (simp add: initialize_def Let_def setters)
  next
    case True
    show ?thesis
    proof (cases "workerInit E (trace ?s1)")
      case (Some rej)
      with True show ?thesis by (simp add: initialize_def Let_def setters)
    next
      case None
      show ?thesis
      proof (cases "loadManifest E (trace ?s2)")
        case (Inl rej)
        with True None show ?thesis by (simp add: initialize_def Let_def setters)
      next
        case (Inr m)
        with True None show ?thesis
          by (cases "length m = 0") (simp_all add: initialize_def Let_def setters)
      qed
    qed
  qed
qed

lemma perform_steps:
  "\<exists>evs. trace (perform E src op s) = trace s @ evs \<and> ERASING \<notin> set (stepsOf evs)"
  by (cases op) (simp_all add: initialize_steps startFlashing_steps)

lemma run_steps:
  "\<exists>evs. trace (run E src ops s) = trace s @ evs \<and> ERASING \<notin> set (stepsOf evs)"
proof (induction ops arbitrary: s)
  case Nil
  then show ?case by (simp add: run_def)
next
  case (Cons op ops)
  let ?s1 = "perform E src op s"
  from perform_steps[of E src op s] obtain evs1 where
    1: "trace ?s1 = trace s @ evs1" "ERASING \<notin> set (stepsOf evs1)" by blast
  from Cons.IH[of ?s1] obtain evs2 where
    2: "trace (run E src ops ?s1) = trace ?s1 @ evs2" "ERASING \<notin> set (stepsOf evs2)" by blast
  have "run E src (op # ops) s = run E src ops ?s1" by (simp add: run_def)
  then have "trace (run E src (op # ops) s) = trace s @ (evs1 @ evs2)" using 1 2 by simp
  moreover have "ERASING \<notin> set (stepsOf (evs1 @ evs2))" using 1 2 by (simp add: stepsOf_append)
  ultimately show ?case by blast
qed

lemma ERASING_never_published:
  "ERASING \<notin> set (stepsOf (newEvents s (run E src ops s)))"
proof -
  from run_steps[of E src ops s] obtain evs where
    "trace (run E src ops s) = trace s @ evs" "ERASING \<notin> set (stepsOf evs)" by blast
  then show ?thesis by (simp add: newEvents_def)
qed

text \<open>
  C4 does not hold of the code.  \<^verbatim>\<open>downloadImages\<close> ends by publishing
  \<open>UNPACKING\<close> and \<^verbatim>\<open>unpackImages\<close> by publishing \<open>FLASHING\<close>, but
  \<^verbatim>\<open>flashDevice\<close> publishes no step, and neither does \<^verbatim>\<open>eraseDevice\<close>: in a
  session where nothing fails the steps published are \<open>READY\<close>, \<open>CONNECTING\<close>,
  \<open>DOWNLOADING\<close>, \<open>UNPACKING\<close>, \<open>FLASHING\<close>, \<open>DONE\<close>, and the write to
  \<open>userdata\<close> and the reset happen while the step is still \<open>FLASHING\<close>.
\<close>

theorem session_skips_ERASING:
  "stepsOf (trace (snd (startFlashing env_ok FlashTS
              (initialize env_ok FlashTS (createQdlStore FlashTS)))))
     = [READY, CONNECTING, DOWNLOADING, UNPACKING, FLASHING, DONE]
   \<and> dropWhile (\<lambda>e. e \<noteq> SetStep FLASHING)
        (trace (snd (startFlashing env_ok FlashTS
              (initialize env_ok FlashTS (createQdlStore FlashTS)))))
     = [SetStep FLASHING, SetProgress 0, GetActiveSlot, Erase ''xbl_a'',
        GetImage \<lparr>name = ''boot''\<rparr>, SetMessage ''Flashing boot'',
        FlashBlob ''boot_b'' [1, 2, 3], SetProgress (1 / 2),
        GetImage \<lparr>name = ''system''\<rparr>, SetMessage ''Flashing system'',
        FlashBlob ''system_b'' [1, 2, 3], SetProgress (1 / 2),
        SetMessage ''Changing slot to b'', SetActiveSlot ''b'',
        SetProgress 0, SetMessage ''Erasing userdata'', FlashBlob ''userdata'' erasePayload,
        SetProgress (9 / 10), SetMessage ''Rebooting'', Reset, SetProgress 1,
        SetConnected False, SetStep DONE]
   \<and> stepsOf (trace (snd (startFlashing env_ok FlashJS
              (initialize env_ok FlashJS (createQdlStore FlashJS)))))
     = [READY, CONNECTING, DOWNLOADING, UNPACKING, FLASHING, DONE]"
  by code_simp

text \<open>
  C5 does not hold of \<^verbatim>\<open>flash.ts\<close>.  Its \<^verbatim>\<open>Error\<close> table has no
  \<^verbatim>\<open>UNPACK_FAILED\<close>, so when the second of five images fails to unpack for a reason
  other than a checksum, \<^verbatim>\<open>unpackImages\<close> throws \<^verbatim>\<open>undefined\<close>;
  \<^verbatim>\<open>handleError\<close> then throws on reading \<^verbatim>\<open>err.code\<close>, and nothing is
  published.  The untyped copy, whose table has the key, publishes \<open>UNPACK_FAILED\<close>;
  a checksum failure is published as \<open>CHECKSUM_MISMATCH\<close> by both.
\<close>

theorem unpack_failure_FlashTS:
  "fst (unpackImages env_unpack_fails FlashTS
          (initialize env_unpack_fails FlashTS (createQdlStore FlashTS))) = Some JUndefined
   \<and> fst (startFlashing env_unpack_fails FlashTS
          (initialize env_unpack_fails FlashTS (createQdlStore FlashTS))) = Some TypeError
   \<and> errorsOf (trace (snd (startFlashing env_unpack_fails FlashTS
          (initialize env_unpack_fails FlashTS (createQdlStore FlashTS))))) = []
   \<and> error (snd (startFlashing env_unpack_fails FlashTS
          (initialize env_unpack_fails FlashTS (createQdlStore FlashTS)))) = Error FlashTS NONE
   \<and> fst (unpackImages env_unpack_fails FlashJS
          (initialize env_unpack_fails FlashJS (createQdlStore FlashJS)))
       = Some (Error FlashJS UNPACK_FAILED)
   \<and> error (snd (startFlashing env_unpack_fails FlashJS
          (initialize env_unpack_fails FlashJS (createQdlStore FlashJS))))
       = Error FlashJS UNPACK_FAILED
   \<and> error (snd (startFlashing env_checksum_fails FlashTS
          (initialize env_checksum_fails FlashTS (createQdlStore FlashTS))))
       = Error FlashTS CHECKSUM_MISMATCH"
  by code_simp

text \<open>Whatever \<^verbatim>\<open>handleError\<close> is given, the hook it arms does not reload.\<close>

lemma handleError_never_reloads: "handleError err s = (None, s') \<Longrightarrow> \<not> handleRetry s'"
  by (cases err) (auto simp: handleError_def handleRetry_def Let_def setters)

text \<open>
  C6 does not hold of the code.  \<^verbatim>\<open>handleError\<close> stores
  \<^verbatim>\<open>() => () => window.location.reload()\<close>: a call of it, which is all the view's
  \<^verbatim>\<open>handleRetry\<close> does, returns a function and reloads nothing.  At the spec's own
  example (the download of image 2 of 5 fails) the code \<open>DOWNLOAD_FAILED\<close> is
  published, progress is -1 and \<^verbatim>\<open>onContinue\<close> is cleared, but the retry hook does
  not reload.
\<close>

theorem download_failure_retry_does_not_reload:
  "error (snd (startFlashing env_download_fails FlashTS
          (initialize env_download_fails FlashTS (createQdlStore FlashTS))))
       = Error FlashTS DOWNLOAD_FAILED
   \<and> progress (snd (startFlashing env_download_fails FlashTS
          (initialize env_download_fails FlashTS (createQdlStore FlashTS)))) = - 1
   \<and> onContinue (snd (startFlashing env_download_fails FlashTS
          (initialize env_download_fails FlashTS (createQdlStore FlashTS)))) = None
   \<and> onRetry (snd (startFlashing env_download_fails FlashTS
          (initialize env_download_fails FlashTS (createQdlStore FlashTS))))
       = Some (Returns ReloadPage)
   \<and> \<not> performsReload (Returns ReloadPage)
   \<and> \<not> handleRetry (snd (startFlashing env_download_fails FlashTS
          (initialize env_download_fails FlashTS (createQdlStore FlashTS))))
   \<and> \<not> handleRetry (snd (startFlashing env_download_fails FlashJS
          (initialize env_download_fails FlashJS (createQdlStore FlashJS))))"
  by code_simp

text \<open>
  Whatever \<^verbatim>\<open>waitForConnect\<close> rejects with, short of \<^verbatim>\<open>undefined\<close>, is published
  as \<^verbatim>\<open>err.code || err\<close>.
\<close>

lemma startFlashing_connect_rejected:
  assumes "waitForConnect E (trace s @ [SetStep CONNECTING, WaitForConnect]) = Some rej"
    and "rej \<noteq> JUndefined"
  shows "error (snd (startFlashing E src s)) =
           (case rej of JObj c \<Rightarrow> (if truthy c then c else rej) | _ \<Rightarrow> rej)"
proof -
  have t: "trace (emit WaitForConnect (step_set CONNECTING s))
      = trace s @ [SetStep CONNECTING, WaitForConnect]"
    by (simp add: setters)
  have "startFlashing_try E src (step_set CONNECTING s)
      = (Some rej, emit WaitForConnect (step_set CONNECTING s))"
    using assms(1) t by (simp add: startFlashing_try_def Let_def)
  then show ?thesis using assms(2)
    by (cases rej) (simp_all add: startFlashing_def handleError_def Let_def setters)
qed

text \<open>
  C7 does not hold of the code.  \<^verbatim>\<open>initialize\<close> publishes \<open>UNKNOWN\<close> for whatever
  it catches and every phase replaces what it catches by its coarse code, but
  \<^verbatim>\<open>handleError\<close> publishes \<^verbatim>\<open>err.code || err\<close> and maps nothing to
  \<open>UNKNOWN\<close>.  When \<^verbatim>\<open>waitForConnect\<close> rejects with a message, the message itself
  becomes the error field: it is no member of the table, and it is not \<open>UNKNOWN\<close>.
\<close>

theorem raw_failure_published_as_is:
  "error (snd (startFlashing env_no_device FlashTS
                 (initialize env_no_device FlashTS (createQdlStore FlashTS))))
     = JStr ''No device selected''
   \<and> JStr ''No device selected'' \<notin> set (ErrorValues FlashTS)
   \<and> JStr ''No device selected'' \<noteq> Error FlashTS UNKNOWN
   \<and> error (snd (startFlashing env_no_device FlashJS
                 (initialize env_no_device FlashJS (createQdlStore FlashJS))))
     = JStr ''No device selected''
   \<and> JStr ''No device selected'' \<notin> set (ErrorValues FlashJS)
   \<and> JStr ''No device selected'' \<noteq> Error FlashJS UNKNOWN"
  by code_simp

end
